theory Spec2Isabelle
  imports Main
begin

section \<open>JavaScript values carried by the transport\<close>

text \<open>
  The module \<^verbatim>\<open>src/ipc.js\<close> inspects message payloads dynamically. The payloads
  are the plain data that \<^verbatim>\<open>window.postMessage\<close> can carry: the primitives,
  arrays and plain objects. An object is an association list of its own properties,
  read with \<open>map_of\<close> (a JavaScript object has each key once). Numbers are only ever
  tested for truthiness, so integers and \<open>NaN\<close> stand for them.
\<close>

datatype jsval =
    JUndefined
  | JNull
  | JBool bool
  | JNum int
  | JNaN
  | JStr string
  | JArr "jsval list"
  | JObj "(string \<times> jsval) list"

text \<open>JavaScript's \<^verbatim>\<open>ToBoolean\<close>: the condition of \<^verbatim>\<open>if\<close> and of \<^verbatim>\<open>&&\<close>.\<close>

fun truthy :: "jsval \<Rightarrow> bool" where
  "truthy JUndefined = False"
| "truthy JNull = False"
| "truthy (JBool b) = b"
| "truthy (JNum n) = (n \<noteq> 0)"
| "truthy JNaN = False"
| "truthy (JStr s) = (s \<noteq> [])"
| "truthy (JArr xs) = True"
| "truthy (JObj kvs) = True"

text \<open>\<^verbatim>\<open>a && b\<close>: the left operand when it is falsy, the right one otherwise.\<close>

definition js_and :: "jsval \<Rightarrow> jsval \<Rightarrow> jsval" where
  "js_and a b = (if truthy a then b else a)"

text \<open>
  \<^verbatim>\<open>v[k]\<close> and \<^verbatim>\<open>v.k\<close> for the keys the module reads (\<^verbatim>\<open>solid-auth-client\<close>,
  \<^verbatim>\<open>id\<close>, \<^verbatim>\<open>method\<close>, \<^verbatim>\<open>args\<close>, \<^verbatim>\<open>ret\<close>): an own property of an object, and
  \<^verbatim>\<open>undefined\<close> on anything else, since no prototype defines these keys. Every read
  in the module is guarded by \<^verbatim>\<open>&&\<close>, so \<^verbatim>\<open>null\<close> and \<^verbatim>\<open>undefined\<close> (where a read
  would throw) never reach it.
\<close>

fun get :: "jsval \<Rightarrow> string \<Rightarrow> jsval" where
  "get (JObj kvs) k = (case map_of kvs k of Some v \<Rightarrow> v | None \<Rightarrow> JUndefined)"
| "get v k = JUndefined"

text \<open>Whether a value is an object with own property \<open>k\<close>.\<close>

fun has_own :: "jsval \<Rightarrow> string \<Rightarrow> bool" where
  "has_own (JObj kvs) k = (k \<in> set (map fst kvs))"
| "has_own v k = False"

text \<open>What a failing flow fails with: the two \<^verbatim>\<open>TypeError\<close>s the module itself can raise,
  the \<^verbatim>\<open>SyntaxError\<close> of \<^verbatim>\<open>postMessage\<close> for a target origin that is not a URL, or
  whatever value a handler threw or rejected with.\<close>

datatype reason =
    TypeError_not_iterable
  | TypeError_not_a_function
  | SyntaxError_invalid_target_origin
  | Raised jsval

text \<open>
  The spread \<^verbatim>\<open>...args\<close> in a call: the elements of an array, the characters of a
  string, and a \<^verbatim>\<open>TypeError\<close> for every other value (\<^verbatim>\<open>undefined\<close> included).
\<close>

fun spread :: "jsval \<Rightarrow> reason + jsval list" where
  "spread (JArr xs) = Inr xs"
| "spread (JStr s) = Inr (map (\<lambda>c. JStr [c]) s)"
| "spread v = Inl TypeError_not_iterable"

text \<open>The values the spread accepts: those with an iterator, here arrays and strings.\<close>

fun iterable :: "jsval \<Rightarrow> bool" where
  "iterable (JArr xs) = True"
| "iterable (JStr s) = True"
| "iterable v = False"

text \<open>
  \<^verbatim>\<open>resp.hasOwnProperty(k)\<close> is a method call: the method is looked up on the value
  first, and an own property named \<^verbatim>\<open>hasOwnProperty\<close> shadows the one of
  \<^verbatim>\<open>Object.prototype\<close>. Such a property is data (the transport carries no functions), so
  calling it throws.
\<close>

fun hasOwnProperty :: "jsval \<Rightarrow> string \<Rightarrow> reason + bool" where
  "hasOwnProperty (JObj kvs) k =
     (if ''hasOwnProperty'' \<in> set (map fst kvs) then Inl TypeError_not_a_function
      else Inr (k \<in> set (map fst kvs)))"
| "hasOwnProperty v k = Inr False"

section \<open>Handlers and promises\<close>

text \<open>
  A promise is modelled by how it eventually settles. A handler
  (\<^verbatim>\<open>type handler = (string, ...args: any[]) => ?Promise<any>\<close>) is called with a method
  and the arguments; it throws, or it returns a plain value (\<^verbatim>\<open>null\<close> and \<^verbatim>\<open>undefined\<close>
  among them) or a promise.
\<close>

datatype settlement = Resolved jsval | Rejected reason | Unsettled

datatype retval = Plain jsval | Promise settlement

datatype hresult = Returns retval | Throws reason

type_synonym handler = "jsval \<Rightarrow> jsval list \<Rightarrow> hresult"

text \<open>\<^verbatim>\<open>await x\<close>: a value that is not a promise is its own result.\<close>

fun await :: "retval \<Rightarrow> settlement" where
  "await (Plain v) = Resolved v"
| "await (Promise s) = s"

section \<open>The envelope\<close>

definition NAMESPACE :: string where
  "NAMESPACE = ''solid-auth-client''"

record message_event =
  data :: jsval
  origin :: string

text \<open>\<^verbatim>\<open>data && data[NAMESPACE]\<close>, as both the Server and the Client write it.\<close>

definition namespaced :: "jsval \<Rightarrow> jsval" where
  "namespaced d = js_and d (get d NAMESPACE)"

text \<open>\<^verbatim>\<open>{ [NAMESPACE]: { id, method, args } }\<close> and \<^verbatim>\<open>{ [NAMESPACE]: { id, ret } }\<close>.\<close>

definition request_envelope :: "jsval \<Rightarrow> jsval \<Rightarrow> jsval \<Rightarrow> jsval" where
  "request_envelope i m a = JObj [(NAMESPACE, JObj [(''id'', i), (''method'', m), (''args'', a)])]"

definition response_envelope :: "jsval \<Rightarrow> jsval \<Rightarrow> jsval" where
  "response_envelope i r = JObj [(NAMESPACE, JObj [(''id'', i), (''ret'', r)])]"

section \<open>The transport\<close>

text \<open>
  \<^verbatim>\<open>targetWindow.postMessage(message, targetOrigin)\<close> is the browser primitive the module
  is written against. A window's origin is a tuple origin, written as its serialisation
  (such as \<^verbatim>\<open>https://app.example\<close>), or an opaque origin (a sandboxed frame, a
  \<^verbatim>\<open>file:\<close> page), which serialises to \<^verbatim>\<open>null\<close> and is the same origin only as itself.
\<close>

datatype window_origin = Opaque nat | Tuple string

fun serialize :: "window_origin \<Rightarrow> string" where
  "serialize (Opaque n) = ''null''"
| "serialize (Tuple s) = s"

text \<open>
  The browser's URL parser is not part of the module; it is a parameter. On a string it
  fails, or gives a URL with an opaque origin, or gives a URL with a tuple origin
  (returned in serialised form).
\<close>

datatype parsed_url = NotAURL | URLOpaque | URLOrigin string

type_synonym url_parser = "string \<Rightarrow> parsed_url"

text \<open>
  A target origin is parsed without a base URL, so a string with no colon, which has no
  scheme, is not a URL whatever else the parser does; \<^verbatim>\<open>null\<close> is such a string.
\<close>

definition parse_target :: "url_parser \<Rightarrow> string \<Rightarrow> parsed_url" where
  "parse_target parse_url t = (if CHR '':'' \<in> set t then parse_url t else NotAURL)"

text \<open>
  The call itself: a target origin other than \<^verbatim>\<open>*\<close> and \<^verbatim>\<open>/\<close> is parsed as a URL, and
  the call throws a \<^verbatim>\<open>SyntaxError\<close> when it does not parse.
\<close>

definition invalid_targetOrigin :: "url_parser \<Rightarrow> string \<Rightarrow> bool" where
  "invalid_targetOrigin parse_url t =
     (t \<noteq> ''*'' \<and> t \<noteq> ''/'' \<and> parse_target parse_url t = NotAURL)"

text \<open>
  The task the call queues: the message is delivered when the target origin is \<^verbatim>\<open>*\<close>,
  or is \<^verbatim>\<open>/\<close> and the target window has the sender's origin, or parses to a URL whose
  origin is the target window's; otherwise it is dropped silently. The event carries the
  payload and the serialised origin of the sender.
\<close>

definition reaches :: "url_parser \<Rightarrow> window_origin \<Rightarrow> string \<Rightarrow> window_origin \<Rightarrow> bool" where
  "reaches parse_url sender t target =
     (if t = ''*'' then True
      else if t = ''/'' then sender = target
      else case parse_target parse_url t of
             NotAURL \<Rightarrow> False
           | URLOpaque \<Rightarrow> False
           | URLOrigin x \<Rightarrow> target = Tuple x)"

definition deliver :: "url_parser \<Rightarrow> window_origin \<Rightarrow> window_origin \<Rightarrow> jsval \<times> string
    \<Rightarrow> message_event list" where
  "deliver parse_url sender target msg =
     (if reaches parse_url sender (snd msg) target
      then [\<lparr>data = fst msg, origin = serialize sender\<rparr>] else [])"

section \<open>Server\<close>

record server =
  clientOrigin :: string
  handler :: handler

text \<open>
  What one run of \<^verbatim>\<open>Server._handleMessage\<close> does: the \<^verbatim>\<open>console.warn\<close> lines, the
  calls of the handler (method and arguments), the messages that \<^verbatim>\<open>postMessage\<close> accepted
  for the client window (payload and target origin), and how the promise of the async
  function settles. A \<^verbatim>\<open>postMessage\<close> that throws posts nothing and rejects that promise.
\<close>

record outcome =
  warned :: "string list"
  invoked :: "(jsval \<times> jsval list) list"
  posted :: "(jsval \<times> string) list"
  completion :: settlement

definition origin_warning :: "string \<Rightarrow> string \<Rightarrow> string" where
  "origin_warning configured observed =
     ''solid-auth-client is listening to '' @ configured @
     '' so ignored a message received from '' @ observed @ ''.''"

definition handleMessage :: "url_parser \<Rightarrow> server \<Rightarrow> message_event \<Rightarrow> outcome" where
  "handleMessage parse_url s ev =
     (if origin ev \<noteq> clientOrigin s then
        \<lparr>warned = [origin_warning (clientOrigin s) (origin ev)], invoked = [], posted = [],
         completion = Resolved JUndefined\<rparr>
      else
        let req = namespaced (data ev) in
        if truthy (js_and req (get req ''method'')) then
          (let id = get req ''id''; method = get req ''method''; args = get req ''args'' in
           case spread args of
             Inl e \<Rightarrow> \<lparr>warned = [], invoked = [], posted = [], completion = Rejected e\<rparr>
           | Inr as \<Rightarrow>
               (case handler s method as of
                  Throws e \<Rightarrow>
                    \<lparr>warned = [], invoked = [(method, as)], posted = [], completion = Rejected e\<rparr>
                | Returns r \<Rightarrow>
                    (case await r of
                       Resolved ret \<Rightarrow>
                         (if invalid_targetOrigin parse_url (clientOrigin s) then
                            \<lparr>warned = [], invoked = [(method, as)], posted = [],
                             completion = Rejected SyntaxError_invalid_target_origin\<rparr>
                          else
                            \<lparr>warned = [], invoked = [(method, as)],
                             posted = [(response_envelope id ret, clientOrigin s)],
                             completion = Resolved JUndefined\<rparr>)
                     | Rejected e \<Rightarrow>
                         \<lparr>warned = [], invoked = [(method, as)], posted = [],
                          completion = Rejected e\<rparr>
                     | Unsettled \<Rightarrow>
                         \<lparr>warned = [], invoked = [(method, as)], posted = [],
                          completion = Unsettled\<rparr>)))
        else
          \<lparr>warned = [], invoked = [], posted = [], completion = Resolved JUndefined\<rparr>)"

section \<open>Client\<close>

record client =
  serverOrigin :: string

text \<open>
  The client's window, as far as \<^verbatim>\<open>Client.request\<close> touches it: the registered
  \<^verbatim>\<open>responseListener\<close> closures (each holds the promise it resolves and the id it
  captured), the promises created so far (\<open>None\<close> while pending, the value once resolved;
  a promise is named by its position) and the errors thrown by listeners, which the
  browser reports and drops.
\<close>

record window =
  listeners :: "(nat \<times> string) list"
  promises :: "jsval option list"
  uncaught :: "reason list"

definition new_window :: window where
  "new_window = \<lparr>listeners = [], promises = [], uncaught = []\<rparr>"

text \<open>\<^verbatim>\<open>resolve(v)\<close>: settles a pending promise; a settled promise stays as it is.\<close>

definition resolve :: "nat \<Rightarrow> jsval \<Rightarrow> window \<Rightarrow> window" where
  "resolve p v w =
     (if p < length (promises w) \<and> promises w ! p = None
      then w\<lparr>promises := (promises w)[p := Some v]\<rparr> else w)"

definition addEventListener :: "nat \<times> string \<Rightarrow> window \<Rightarrow> window" where
  "addEventListener l w = w\<lparr>listeners := listeners w @ [l]\<rparr>"

definition removeEventListener :: "nat \<times> string \<Rightarrow> window \<Rightarrow> window" where
  "removeEventListener l w = w\<lparr>listeners := remove1 l (listeners w)\<rparr>"

text \<open>
  \<^verbatim>\<open>Client.request(method, ...args)\<close>. The id \<open>uid\<close> is what \<^verbatim>\<open>uuid()\<close> returned. When
  \<^verbatim>\<open>postMessage\<close> throws, the call throws before any promise or listener exists.
  Otherwise the result is the message posted to the server window (payload and target
  origin), the promise returned to the caller, and the window with the new promise and
  its listener.
\<close>

definition request :: "url_parser \<Rightarrow> client \<Rightarrow> string \<Rightarrow> jsval list \<Rightarrow> string \<Rightarrow> window
    \<Rightarrow> reason + ((jsval \<times> string) \<times> nat \<times> window)" where
  "request parse_url c method args uid w =
     (if invalid_targetOrigin parse_url (serverOrigin c) then
        Inl SyntaxError_invalid_target_origin
      else
        let msg = (request_envelope (JStr uid) (JStr method) (JArr args), serverOrigin c);
            p = length (promises w)
        in Inr (msg, p, addEventListener (p, uid) (w\<lparr>promises := promises w @ [None]\<rparr>)))"

text \<open>The closure \<^verbatim>\<open>responseListener\<close> of the call with promise \<open>p\<close> and id \<open>uid\<close>.\<close>

definition responseListener :: "nat \<Rightarrow> string \<Rightarrow> message_event \<Rightarrow> window \<Rightarrow> window" where
  "responseListener p uid ev w =
     (let resp = namespaced (data ev) in
      if truthy resp \<and> get resp ''id'' = JStr uid then
        (case hasOwnProperty resp ''ret'' of
           Inl e \<Rightarrow> w\<lparr>uncaught := uncaught w @ [e]\<rparr>
         | Inr True \<Rightarrow> removeEventListener (p, uid) (resolve p (get resp ''ret'') w)
         | Inr False \<Rightarrow> w)
      else w)"

text \<open>
  The window receives a message: every listener registered at that moment runs once, in
  the order of registration.
\<close>

definition dispatchEvent :: "message_event \<Rightarrow> window \<Rightarrow> window" where
  "dispatchEvent ev w = fold (\<lambda>l. responseListener (fst l) (snd l) ev) (listeners w) w"

text \<open>
  The test of \<^verbatim>\<open>responseListener\<close>,
  \<^verbatim>\<open>resp && resp.id === id && resp.hasOwnProperty('ret')\<close>, when it holds (a call that
  throws does not count), and the value \<^verbatim>\<open>resp.ret\<close> the promise is then resolved with.
\<close>

definition accepts :: "string \<Rightarrow> jsval \<Rightarrow> bool" where
  "accepts uid d =
     (let resp = namespaced d in
      truthy resp \<and> get resp ''id'' = JStr uid \<and> hasOwnProperty resp ''ret'' = Inr True)"

definition ret_of :: "jsval \<Rightarrow> jsval" where
  "ret_of d = get (namespaced d) ''ret''"

text \<open>
  The same condition in the words of the specification: the payload contains the namespace
  key, the namespaced value has an \<^verbatim>\<open>id\<close> equal to the generated id, and it has a
  \<^verbatim>\<open>ret\<close> field.
\<close>

definition is_response_for :: "string \<Rightarrow> jsval \<Rightarrow> bool" where
  "is_response_for uid d =
     (has_own d NAMESPACE \<and> get (get d NAMESPACE) ''id'' = JStr uid
      \<and> has_own (get d NAMESPACE) ''ret'')"

text \<open>
  The windows that calls of \<^verbatim>\<open>request\<close> and deliveries of messages produce: every
  listener is a closure of its own (no promise has two), over a promise that exists.
\<close>

definition wf_window :: "window \<Rightarrow> bool" where
  "wf_window w =
     (distinct (map fst (listeners w)) \<and> (\<forall>l \<in> set (listeners w). fst l < length (promises w)))"

text \<open>A pending call: its listener is registered and its promise is unresolved.\<close>

definition pending :: "nat \<Rightarrow> string \<Rightarrow> window \<Rightarrow> bool" where
  "pending p uid w =
     ((p, uid) \<in> set (listeners w) \<and> p < length (promises w) \<and> promises w ! p = None)"

text \<open>A message event that carries a response envelope.\<close>

definition response_event :: "string \<Rightarrow> jsval \<Rightarrow> string \<Rightarrow> message_event" where
  "response_event uid ret sender = \<lparr>data = response_envelope (JStr uid) ret, origin = sender\<rparr>"

section \<open>Combining handlers\<close>

text \<open>
  \<^verbatim>\<open>handlers.map(handler => handler(method, ...args))\<close>: the handlers are called in
  order, the handler at position \<open>i\<close> first. The first component lists the calls made
  (position, method, arguments); the second is the array of results, or the exception
  that ended the \<^verbatim>\<open>map\<close>.
\<close>

fun map_handlers :: "nat \<Rightarrow> handler list \<Rightarrow> jsval \<Rightarrow> jsval list
    \<Rightarrow> (nat \<times> jsval \<times> jsval list) list \<times> (reason + retval list)" where
  "map_handlers i [] method args = ([], Inr [])"
| "map_handlers i (h # hs) method args =
     (case h method args of
        Throws e \<Rightarrow> ([(i, method, args)], Inl e)
      | Returns r \<Rightarrow>
          (case map_handlers (Suc i) hs method args of
             (calls, Inl e) \<Rightarrow> ((i, method, args) # calls, Inl e)
           | (calls, Inr rs) \<Rightarrow> ((i, method, args) # calls, Inr (r # rs))))"

text \<open>\<^verbatim>\<open>.find(promise => promise !== null)\<close>: \<^verbatim>\<open>undefined\<close> when nothing is found.\<close>

definition find_not_null :: "retval list \<Rightarrow> retval" where
  "find_not_null rs =
     (case find (\<lambda>promise. promise \<noteq> Plain JNull) rs of
        Some r \<Rightarrow> r | None \<Rightarrow> Plain JUndefined)"

definition combineHandlers :: "handler list \<Rightarrow> handler" where
  "combineHandlers handlers method args =
     (case snd (map_handlers 0 handlers method args) of
        Inl e \<Rightarrow> Throws e
      | Inr rs \<Rightarrow> Returns (find_not_null rs))"

text \<open>The calls of the constituent handlers that one call of the combined handler makes.\<close>

definition combined_calls :: "handler list \<Rightarrow> jsval \<Rightarrow> jsval list
    \<Rightarrow> (nat \<times> jsval \<times> jsval list) list" where
  "combined_calls handlers method args = fst (map_handlers 0 handlers method args)"

section \<open>A whole call\<close>

text \<open>
  One call from end to end: the Client in a window of origin \<open>cw\<close> calls \<open>request\<close>, the
  message travels to the Server's window of origin \<open>sw\<close>, the Server handles what arrives,
  and what the Server posts travels back to the client's window. The result is the
  exception of \<open>request\<close>, or the Server's runs, the promise of the call and the client's
  window afterwards.
\<close>

definition round_trip :: "url_parser \<Rightarrow> client \<Rightarrow> server \<Rightarrow> window_origin \<Rightarrow> window_origin
    \<Rightarrow> string \<Rightarrow> jsval list \<Rightarrow> string \<Rightarrow> window \<Rightarrow> reason + (outcome list \<times> nat \<times> window)" where
  "round_trip parse_url c s cw sw method args uid w =
     (case request parse_url c method args uid w of
        Inl e \<Rightarrow> Inl e
      | Inr (msg, p, w1) \<Rightarrow>
          (let outs = map (handleMessage parse_url s) (deliver parse_url cw sw msg);
               back = concat (map (deliver parse_url sw cw) (concat (map posted outs)))
           in Inr (outs, p, fold dispatchEvent back w1)))"

section \<open>Example handlers and messages\<close>

definition echo :: handler where
  "echo method args =
     (if method = JStr ''echo'' then Returns (Promise (Resolved (JArr args)))
      else Returns (Plain JNull))"

definition declines :: handler where
  "declines method args = Returns (Plain JNull)"

definition answers_ok :: handler where
  "answers_ok method args = Returns (Promise (Resolved (JStr ''ok'')))"

definition returns_undefined :: handler where
  "returns_undefined method args = Returns (Plain JUndefined)"

definition throws_boom :: handler where
  "throws_boom method args = Throws (Raised (JStr ''boom''))"

definition app_origin :: string where
  "app_origin = ''https://app.example''"

definition idp_origin :: string where
  "idp_origin = ''https://idp.example''"

text \<open>
  The URL parser on the strings the examples post to: each of the two example origins is a
  URL whose origin is itself, and \<^verbatim>\<open>null\<close> is not a URL, as in a browser. No example
  posts to any other string.
\<close>

definition known_origins :: url_parser where
  "known_origins t = (if t = app_origin \<or> t = idp_origin then URLOrigin t else NotAURL)"

definition app_window :: window_origin where
  "app_window = Tuple app_origin"

definition idp_window :: window_origin where
  "idp_window = Tuple idp_origin"


definition echo_server :: server where
  "echo_server = \<lparr>clientOrigin = app_origin, handler = echo\<rparr>"

definition idp_client :: client where
  "idp_client = \<lparr>serverOrigin = idp_origin\<rparr>"

definition foreign_event :: message_event where
  "foreign_event =
     \<lparr>data = request_envelope (JStr ''id1'') (JStr ''echo'') (JArr [JNum 1]),
      origin = ''https://evil.example''\<rparr>"

definition no_id_event :: message_event where
  "no_id_event =
     \<lparr>data = JObj [(NAMESPACE, JObj [(''method'', JStr ''echo''), (''args'', JArr [JNum 1])])],
      origin = app_origin\<rparr>"

definition no_method_event :: message_event where
  "no_method_event =
     \<lparr>data = JObj [(NAMESPACE, JObj [(''id'', JStr ''id1''), (''args'', JArr [JNum 1])])],
      origin = app_origin\<rparr>"

definition no_args_event :: message_event where
  "no_args_event =
     \<lparr>data = JObj [(NAMESPACE, JObj [(''id'', JStr ''id1''), (''method'', JStr ''echo'')])],
      origin = app_origin\<rparr>"

definition shadowed_response :: message_event where
  "shadowed_response =
     \<lparr>data = JObj [(NAMESPACE,
         JObj [(''id'', JStr ''id1''), (''ret'', JNum 1), (''hasOwnProperty'', JNum 1)])],
      origin = idp_origin\<rparr>"


definition boom_server :: server where
  "boom_server = \<lparr>clientOrigin = app_origin, handler = throws_boom\<rparr>"




section \<open>Reading properties\<close>

lemma get_absent: "\<not> has_own v k \<Longrightarrow> get v k = JUndefined"
  by (cases v) (auto split: option.splits dest!: map_of_SomeD intro: rev_image_eqI)

lemma get_falsy: "\<not> truthy v \<Longrightarrow> get v k = JUndefined"
  by (cases v) auto

lemma truthy_get_obj: "truthy (get v k) \<Longrightarrow> truthy v"
  by (cases v) auto

lemma namespaced_truthy: "truthy d \<Longrightarrow> namespaced d = get d NAMESPACE"
  by (simp add: namespaced_def js_and_def)

lemma namespaced_falsy: "\<not> truthy d \<Longrightarrow> namespaced d = d"
  by (simp add: namespaced_def js_and_def)

lemma namespaced_get: "truthy (get d NAMESPACE) \<Longrightarrow> namespaced d = get d NAMESPACE"
  by (simp add: namespaced_truthy truthy_get_obj)

lemma get_namespaced_absent:
  "\<not> has_own (get d NAMESPACE) k \<Longrightarrow> get (namespaced d) k = JUndefined"
  by (cases "truthy d") (auto simp: namespaced_truthy namespaced_falsy get_absent get_falsy)

lemma spread_not_iterable: "\<not> iterable v \<Longrightarrow> spread v = Inl TypeError_not_iterable"
  by (cases v) auto

section \<open>Properties of the Server\<close>

text \<open>
  C2. A message whose declared origin is not, as a string, the Server's configured client
  origin never reaches the handler and is never answered: the run only writes one warning
  that names the configured and the observed origin, and returns.
\<close>

theorem C2_origin_mismatch_ignored:
  assumes "origin ev \<noteq> clientOrigin s"
  shows "invoked (handleMessage parse_url s ev) = []
       \<and> posted (handleMessage parse_url s ev) = []
       \<and> completion (handleMessage parse_url s ev) = Resolved JUndefined
       \<and> warned (handleMessage parse_url s ev) =
           [''solid-auth-client is listening to '' @ clientOrigin s @
            '' so ignored a message received from '' @ origin ev @ ''.'']"
  using assms by (simp add: handleMessage_def origin_warning_def)

theorem C2_origin_mismatch_witness:
  "origin foreign_event \<noteq> clientOrigin echo_server
   \<and> invoked (handleMessage known_origins echo_server foreign_event) = []
   \<and> posted (handleMessage known_origins echo_server foreign_event) = []
   \<and> completion (handleMessage known_origins echo_server foreign_event) = Resolved JUndefined
   \<and> warned (handleMessage known_origins echo_server foreign_event) =
       [''solid-auth-client is listening to https://app.example so ignored a message received from https://evil.example.'']"
  using C2_origin_mismatch_ignored [of foreign_event echo_server known_origins]
  by (simp add: foreign_event_def echo_server_def app_origin_def)

text \<open>
  C3, as stated, fails: the Server never looks at \<^verbatim>\<open>id\<close>. A message from the configured
  origin that has a method and arguments but no \<^verbatim>\<open>id\<close> is passed to the handler, and the
  answer is posted with \<^verbatim>\<open>id: undefined\<close>.
\<close>

theorem C3_missing_id_counterexample:
  "origin no_id_event = clientOrigin echo_server
   \<and> has_own (data no_id_event) NAMESPACE
   \<and> \<not> has_own (get (data no_id_event) NAMESPACE) ''id''
   \<and> invoked (handleMessage known_origins echo_server no_id_event) = [(JStr ''echo'', [JNum 1])]
   \<and> posted (handleMessage known_origins echo_server no_id_event) =
       [(response_envelope JUndefined (JArr [JNum 1]), app_origin)]"
  by (simp add: no_id_event_def echo_server_def handleMessage_def namespaced_def js_and_def
      NAMESPACE_def echo_def response_envelope_def invalid_targetOrigin_def parse_target_def known_origins_def
      app_origin_def)

text \<open>
  C3, amended. A message from the configured origin whose payload lacks the namespace key,
  or whose namespaced value lacks a \<^verbatim>\<open>method\<close> field, is ignored silently: no handler
  call, no response, no warning, and the run returns normally.
\<close>

theorem C3_not_a_request_ignored:
  assumes "origin ev = clientOrigin s"
    and "\<not> has_own (data ev) NAMESPACE \<or> \<not> has_own (get (data ev) NAMESPACE) ''method''"
  shows "handleMessage parse_url s ev =
           \<lparr>warned = [], invoked = [], posted = [], completion = Resolved JUndefined\<rparr>"
proof -
  have "\<not> has_own (get (data ev) NAMESPACE) ''method''"
    using assms(2) by (auto simp: get_absent)
  then have "get (namespaced (data ev)) ''method'' = JUndefined"
    by (rule get_namespaced_absent)
  then have "\<not> truthy (js_and (namespaced (data ev)) (get (namespaced (data ev)) ''method''))"
    by (simp add: js_and_def)
  with assms(1) show ?thesis
    by (simp add: handleMessage_def Let_def)
qed

theorem C3_not_a_request_witness:
  "origin no_method_event = clientOrigin echo_server
   \<and> has_own (data no_method_event) NAMESPACE
   \<and> \<not> has_own (get (data no_method_event) NAMESPACE) ''method''
   \<and> handleMessage known_origins echo_server no_method_event =
       \<lparr>warned = [], invoked = [], posted = [], completion = Resolved JUndefined\<rparr>"
  using C3_not_a_request_ignored [of no_method_event echo_server known_origins]
  by (simp add: no_method_event_def echo_server_def NAMESPACE_def)

text \<open>
  C9. A message from the configured origin whose namespaced value has a truthy
  \<^verbatim>\<open>method\<close> but whose \<^verbatim>\<open>args\<close> is absent or not iterable is not ignored silently:
  spreading \<^verbatim>\<open>args\<close> throws a \<^verbatim>\<open>TypeError\<close> before the handler is called, the run fails
  with it, and nothing is posted.
\<close>

theorem C9_args_not_iterable_throws:
  assumes "origin ev = clientOrigin s"
    and "truthy (get (get (data ev) NAMESPACE) ''method'')"
    and "\<not> has_own (get (data ev) NAMESPACE) ''args''
         \<or> \<not> iterable (get (get (data ev) NAMESPACE) ''args'')"
  shows "handleMessage parse_url s ev =
           \<lparr>warned = [], invoked = [], posted = [], completion = Rejected TypeError_not_iterable\<rparr>"
proof -
  let ?req = "get (data ev) NAMESPACE"
  have req: "truthy ?req"
    using assms(2) by (rule truthy_get_obj)
  then have ns: "namespaced (data ev) = ?req"
    by (rule namespaced_get)
  have "\<not> iterable (get ?req ''args'')"
    using assms(3) by (auto simp: get_absent)
  then have "spread (get ?req ''args'') = Inl TypeError_not_iterable"
    by (rule spread_not_iterable)
  with assms(1,2) req ns show ?thesis
    by (simp add: handleMessage_def Let_def js_and_def)
qed

theorem C9_args_not_iterable_witness:
  "origin no_args_event = clientOrigin echo_server
   \<and> truthy (get (get (data no_args_event) NAMESPACE) ''method'')
   \<and> \<not> has_own (get (data no_args_event) NAMESPACE) ''args''
   \<and> handleMessage known_origins echo_server no_args_event =
       \<lparr>warned = [], invoked = [], posted = [], completion = Rejected TypeError_not_iterable\<rparr>"
  using C9_args_not_iterable_throws [of no_args_event echo_server known_origins]
  by (simp add: no_args_event_def echo_server_def NAMESPACE_def)

text \<open>
  A client in a window of opaque origin cannot be answered, whatever the URL parser: its
  messages carry the origin \<^verbatim>\<open>null\<close>, which \<^verbatim>\<open>postMessage\<close> refuses as a target origin,
  so a Server configured with it never posts.
\<close>

lemma null_is_invalid: "invalid_targetOrigin parse_url ''null''"
  by (simp add: invalid_targetOrigin_def parse_target_def)

lemma opaque_unreachable: "\<not> reaches parse_url sw (serialize (Opaque n)) cw"
  by (simp add: reaches_def parse_target_def)

lemma null_client_never_answered:
  "clientOrigin s = ''null'' \<Longrightarrow> posted (handleMessage parse_url s ev) = []"
  by (simp add: handleMessage_def null_is_invalid Let_def
      split: sum.splits hresult.splits settlement.splits)

section \<open>Properties of the handler combinator\<close>

lemma map_handlers_returns:
  "map (\<lambda>h. h method args) hs = map Returns rs \<Longrightarrow>
   map_handlers i hs method args = (map (\<lambda>j. (j, method, args)) [i..<i + length hs], Inr rs)"
proof (induction hs arbitrary: i rs)
  case Nil
  then show ?case by simp
next
  case (Cons h hs)
  then obtain r rs' where rs: "rs = r # rs'" and h: "h method args = Returns r"
    and tl: "map (\<lambda>h. h method args) hs = map Returns rs'"
    by (cases rs) auto
  have "[i..<i + length (h # hs)] = i # [Suc i..<Suc i + length hs]"
    by (simp add: upt_rec)
  with Cons.IH [OF tl, of "Suc i"] h rs show ?case
    by simp
qed

lemma find_not_null_cases:
  "(\<exists>k<length rs. find_not_null rs = rs ! k \<and> rs ! k \<noteq> Plain JNull \<and> (\<forall>j<k. rs ! j = Plain JNull))
   \<or> (find_not_null rs = Plain JUndefined \<and> (\<forall>k<length rs. rs ! k = Plain JNull))"
proof (cases "find (\<lambda>promise. promise \<noteq> Plain JNull) rs")
  case None
  then have "\<forall>r\<in>set rs. r = Plain JNull"
    by (simp add: find_None_iff)
  with None show ?thesis
    by (simp add: find_not_null_def)
next
  case (Some r)
  then obtain k where "k < length rs" "rs ! k \<noteq> Plain JNull" "r = rs ! k"
    "\<forall>j<k. rs ! j = Plain JNull"
    by (auto simp: find_Some_iff)
  with Some show ?thesis
    by (auto simp: find_not_null_def)
qed

lemma find_not_null_after_nulls:
  "\<forall>r\<in>set pre. r = Plain JNull \<Longrightarrow> r \<noteq> Plain JNull \<Longrightarrow> find_not_null (pre @ r # post) = r"
  by (induction pre) (auto simp: find_not_null_def)

text \<open>
  C5, as stated, fails for a handler that throws: the \<^verbatim>\<open>map\<close> ends at the exception,
  the handlers after it are never called, and the combined handler throws instead of
  returning a result.
\<close>

theorem C5_throwing_handler_counterexample:
  "combined_calls [throws_boom, answers_ok] (JStr ''m'') [JNum 1] = [(0, JStr ''m'', [JNum 1])]
   \<and> combineHandlers [throws_boom, answers_ok] (JStr ''m'') [JNum 1] = Throws (Raised (JStr ''boom''))"
  by (simp add: combined_calls_def combineHandlers_def throws_boom_def)

text \<open>
  C5, amended. When every supplied handler returns (none throws), one call of the combined
  handler calls every handler once, in the declared order, with the same method and
  arguments, whatever the earlier ones returned; it returns the first result that is not
  \<^verbatim>\<open>null\<close>, in that order, and \<^verbatim>\<open>undefined\<close> when all results are \<^verbatim>\<open>null\<close>. In particular
  two handlers returning \<^verbatim>\<open>null\<close> and a promise of \<^verbatim>\<open>"ok"\<close> give that promise, and two
  handlers returning \<^verbatim>\<open>null\<close> give \<^verbatim>\<open>undefined\<close>.
\<close>

theorem C5_combined_calls_all_returns_first:
  assumes "map (\<lambda>h. h method args) handlers = map Returns rs"
  shows "combined_calls handlers method args = map (\<lambda>i. (i, method, args)) [0..<length handlers]
       \<and> (\<exists>r. combineHandlers handlers method args = Returns r \<and>
            ((\<exists>k<length rs. r = rs ! k \<and> rs ! k \<noteq> Plain JNull \<and> (\<forall>j<k. rs ! j = Plain JNull))
             \<or> (r = Plain JUndefined \<and> (\<forall>k<length rs. rs ! k = Plain JNull))))
       \<and> (rs = [Plain JNull, Promise (Resolved (JStr ''ok''))] \<longrightarrow>
            combineHandlers handlers method args = Returns (Promise (Resolved (JStr ''ok''))))
       \<and> (rs = [Plain JNull, Plain JNull] \<longrightarrow>
            combineHandlers handlers method args = Returns (Plain JUndefined))"
proof -
  have run: "map_handlers 0 handlers method args =
      (map (\<lambda>j. (j, method, args)) [0..<length handlers], Inr rs)"
    using map_handlers_returns [OF assms, of 0] by simp
  then have calls: "combined_calls handlers method args =
      map (\<lambda>i. (i, method, args)) [0..<length handlers]"
    by (simp add: combined_calls_def)
  have res: "combineHandlers handlers method args = Returns (find_not_null rs)"
    using run by (simp add: combineHandlers_def)
  have first: "\<exists>r. combineHandlers handlers method args = Returns r \<and>
            ((\<exists>k<length rs. r = rs ! k \<and> rs ! k \<noteq> Plain JNull \<and> (\<forall>j<k. rs ! j = Plain JNull))
             \<or> (r = Plain JUndefined \<and> (\<forall>k<length rs. rs ! k = Plain JNull)))"
    using res find_not_null_cases [of rs] by simp
  have ok: "rs = [Plain JNull, Promise (Resolved (JStr ''ok''))] \<longrightarrow>
            combineHandlers handlers method args = Returns (Promise (Resolved (JStr ''ok'')))"
    using res by (simp add: find_not_null_def)
  have none: "rs = [Plain JNull, Plain JNull] \<longrightarrow>
            combineHandlers handlers method args = Returns (Plain JUndefined)"
    using res by (simp add: find_not_null_def)
  from calls first ok none show ?thesis by blast
qed

theorem C5_combined_witness:
  "map (\<lambda>h. h (JStr ''m'') [JNum 1]) [declines, answers_ok]
     = map Returns [Plain JNull, Promise (Resolved (JStr ''ok''))]
   \<and> combined_calls [declines, answers_ok] (JStr ''m'') [JNum 1]
     = [(0, JStr ''m'', [JNum 1]), (1, JStr ''m'', [JNum 1])]
   \<and> combineHandlers [declines, answers_ok] (JStr ''m'') [JNum 1]
     = Returns (Promise (Resolved (JStr ''ok'')))"
  using C5_combined_calls_all_returns_first [of "JStr ''m''" "[JNum 1]" "[declines, answers_ok]"
      "[Plain JNull, Promise (Resolved (JStr ''ok''))]"]
  by (simp add: declines_def answers_ok_def upt_rec)

text \<open>
  C10. The test is \<^verbatim>\<open>promise !== null\<close> and nothing else, so \<^verbatim>\<open>undefined\<close> passes it.
  When the handlers before \<open>h\<close> return \<^verbatim>\<open>null\<close> and \<open>h\<close> returns \<^verbatim>\<open>undefined\<close>, the combined
  handler returns \<^verbatim>\<open>undefined\<close>, whatever the later handlers returned, although every
  handler was called.
\<close>

theorem C10_undefined_is_selected:
  assumes "\<forall>g\<in>set pre. g method args = Returns (Plain JNull)"
    and "h method args = Returns (Plain JUndefined)"
    and "map (\<lambda>g. g method args) post = map Returns later"
  shows "combineHandlers (pre @ h # post) method args = Returns (Plain JUndefined)
       \<and> combined_calls (pre @ h # post) method args =
           map (\<lambda>i. (i, method, args)) [0..<length (pre @ h # post)]"
proof -
  let ?rs = "replicate (length pre) (Plain JNull) @ Plain JUndefined # later"
  have "map (\<lambda>g. g method args) pre = map Returns (replicate (length pre) (Plain JNull))"
    using assms(1) by (induction pre) auto
  with assms(2,3) have all: "map (\<lambda>g. g method args) (pre @ h # post) = map Returns ?rs"
    by simp
  have run: "map_handlers 0 (pre @ h # post) method args =
      (map (\<lambda>j. (j, method, args)) [0..<length (pre @ h # post)], Inr ?rs)"
    using map_handlers_returns [OF all, of 0] by simp
  have "find_not_null ?rs = Plain JUndefined"
    by (rule find_not_null_after_nulls) auto
  with run show ?thesis
    by (simp add: combineHandlers_def combined_calls_def)
qed

theorem C10_undefined_witness:
  "declines (JStr ''m'') [] = Returns (Plain JNull)
   \<and> returns_undefined (JStr ''m'') [] = Returns (Plain JUndefined)
   \<and> answers_ok (JStr ''m'') [] = Returns (Promise (Resolved (JStr ''ok'')))
   \<and> combineHandlers [declines, returns_undefined, answers_ok] (JStr ''m'') []
       = Returns (Plain JUndefined)
   \<and> combined_calls [declines, returns_undefined, answers_ok] (JStr ''m'') []
       = [(0, JStr ''m'', []), (1, JStr ''m'', []), (2, JStr ''m'', [])]"
  using C10_undefined_is_selected [of "[declines]" "JStr ''m''" "[]" returns_undefined
      "[answers_ok]" "[Promise (Resolved (JStr ''ok''))]"]
  by (simp add: declines_def returns_undefined_def answers_ok_def upt_rec)

section \<open>The client window under messages\<close>

lemma has_own_get: "get v k \<noteq> JUndefined \<Longrightarrow> has_own v k"
  using get_absent by blast

lemma hasOwnProperty_obj:
  "hasOwnProperty v k = Inr True \<longleftrightarrow> has_own v k \<and> \<not> has_own v ''hasOwnProperty''"
  by (cases v) auto

lemma accepts_iff:
  "accepts uid d \<longleftrightarrow> is_response_for uid d \<and> \<not> has_own (get d NAMESPACE) ''hasOwnProperty''"
proof (cases "get (get d NAMESPACE) ''id'' = JStr uid")
  case True
  then have "truthy (get d NAMESPACE)"
    by (cases "get d NAMESPACE") auto
  then have ns: "namespaced d = get d NAMESPACE" and t: "truthy (get d NAMESPACE)"
    by (simp_all add: namespaced_get)
  have "has_own d NAMESPACE"
    using t by (intro has_own_get) auto
  with True ns t show ?thesis
    by (simp add: accepts_def is_response_for_def hasOwnProperty_obj Let_def)
next
  case False
  have "get (namespaced d) ''id'' \<noteq> JStr uid"
  proof (cases "truthy d")
    case True
    with False show ?thesis by (simp add: namespaced_truthy)
  next
    case f: False
    then show ?thesis by (simp add: namespaced_falsy get_falsy)
  qed
  with False show ?thesis
    by (simp add: accepts_def is_response_for_def Let_def)
qed

lemma responseListener_promises:
  "promises (responseListener p uid ev w) =
     (if accepts uid (data ev) \<and> p < length (promises w) \<and> promises w ! p = None
      then (promises w)[p := Some (ret_of (data ev))] else promises w)"
  by (auto simp: responseListener_def accepts_def ret_of_def Let_def resolve_def
      removeEventListener_def split: sum.splits bool.splits)

lemma responseListener_listeners:
  "listeners (responseListener p uid ev w) =
     (if accepts uid (data ev) then remove1 (p, uid) (listeners w) else listeners w)"
  by (auto simp: responseListener_def accepts_def ret_of_def Let_def resolve_def
      removeEventListener_def split: sum.splits bool.splits)

lemma fold_listener_length:
  "length (promises (fold (\<lambda>l. responseListener (fst l) (snd l) ev) xs w)) = length (promises w)"
  by (induction xs arbitrary: w) (simp_all add: responseListener_promises)

lemma fold_listener_promises:
  "promises (fold (\<lambda>l. responseListener (fst l) (snd l) ev) xs w) ! q =
     (if (\<exists>uid. (q, uid) \<in> set xs \<and> accepts uid (data ev)) \<and> q < length (promises w)
         \<and> promises w ! q = None
      then Some (ret_of (data ev)) else promises w ! q)"
proof (induction xs arbitrary: w)
  case Nil
  then show ?case by simp
next
  case (Cons x xs)
  obtain p uid where x: "x = (p, uid)" by (cases x)
  show ?case
    unfolding x
    by (simp add: Cons.IH responseListener_promises nth_list_update) (auto)
qed

lemma fold_listener_listeners:
  "distinct (listeners w) \<Longrightarrow>
   listeners (fold (\<lambda>l. responseListener (fst l) (snd l) ev) xs w) =
     filter (\<lambda>l. \<not> (l \<in> set xs \<and> accepts (snd l) (data ev))) (listeners w)"
proof (induction xs arbitrary: w)
  case Nil
  then show ?case by simp
next
  case (Cons x xs)
  let ?w = "responseListener (fst x) (snd x) ev w"
  have step: "listeners ?w = filter (\<lambda>l. \<not> (l = x \<and> accepts (snd l) (data ev))) (listeners w)"
    using Cons.prems
    by (auto simp: responseListener_listeners distinct_remove1_removeAll removeAll_filter_not_eq
        intro: filter_cong)
  then have "distinct (listeners ?w)"
    using Cons.prems by simp
  from Cons.IH [OF this] step show ?case
    by (auto intro: filter_cong)
qed

lemma dispatchEvent_listeners:
  "distinct (listeners w) \<Longrightarrow>
   listeners (dispatchEvent ev w) = filter (\<lambda>l. \<not> accepts (snd l) (data ev)) (listeners w)"
  by (auto simp: dispatchEvent_def fold_listener_listeners intro: filter_cong)

lemma dispatchEvent_promises:
  "promises (dispatchEvent ev w) ! q =
     (if (\<exists>uid. (q, uid) \<in> set (listeners w) \<and> accepts uid (data ev)) \<and> q < length (promises w)
         \<and> promises w ! q = None
      then Some (ret_of (data ev)) else promises w ! q)"
  unfolding dispatchEvent_def by (rule fold_listener_promises)

lemma dispatchEvent_length: "length (promises (dispatchEvent ev w)) = length (promises w)"
  unfolding dispatchEvent_def by (rule fold_listener_length)

lemma wf_window_distinct: "wf_window w \<Longrightarrow> distinct (listeners w)"
  by (simp add: wf_window_def distinct_map)

lemma wf_window_dispatchEvent: "wf_window w \<Longrightarrow> wf_window (dispatchEvent ev w)"
  by (frule wf_window_distinct)
    (auto simp: wf_window_def dispatchEvent_listeners dispatchEvent_length distinct_map_filter)

lemma wf_window_request:
  "wf_window w \<Longrightarrow> request parse_url c method args uid w = Inr (msg, p, w1) \<Longrightarrow> wf_window w1"
  by (fastforce simp: wf_window_def request_def addEventListener_def Let_def split: if_splits)

lemma wf_window_new: "wf_window new_window"
  by (simp add: wf_window_def new_window_def)

lemma wf_window_unique:
  "wf_window w \<Longrightarrow> (p, uid) \<in> set (listeners w) \<Longrightarrow> (p, uid') \<in> set (listeners w) \<Longrightarrow> uid' = uid"
  by (auto simp: wf_window_def dest: eq_key_imp_eq_value)

lemma pending_request:
  "wf_window w \<Longrightarrow> request parse_url c method args uid w = Inr (msg, p, w1) \<Longrightarrow>
   wf_window w1 \<and> pending p uid w1 \<and> p = length (promises w)"
  by (frule (1) wf_window_request)
    (auto simp: pending_def request_def addEventListener_def Let_def nth_append split: if_splits)

lemma pending_step:
  assumes "wf_window w" and "pending p uid w"
  shows "if accepts uid (data ev)
         then promises (dispatchEvent ev w) ! p = Some (ret_of (data ev))
              \<and> p \<notin> fst ` set (listeners (dispatchEvent ev w))
         else pending p uid (dispatchEvent ev w)"
proof -
  have d: "distinct (listeners w)" using assms(1) by (rule wf_window_distinct)
  have u: "\<And>uid'. (p, uid') \<in> set (listeners w) \<Longrightarrow> uid' = uid"
    using assms by (auto simp: pending_def dest: wf_window_unique)
  show ?thesis
  proof (cases "accepts uid (data ev)")
    case True
    have "p \<notin> fst ` set (listeners (dispatchEvent ev w))"
      using True u by (auto simp: dispatchEvent_listeners [OF d])
    with True assms(2) show ?thesis
      by (auto simp: dispatchEvent_promises pending_def)
  next
    case False
    then have "\<not> (\<exists>uid'. (p, uid') \<in> set (listeners w) \<and> accepts uid' (data ev))"
      using u by auto
    with False assms(2) show ?thesis
      by (simp add: pending_def dispatchEvent_promises dispatchEvent_length
          dispatchEvent_listeners [OF d])
  qed
qed

lemma settled_stays:
  assumes "wf_window w" and "p \<notin> fst ` set (listeners w)"
  shows "promises (fold dispatchEvent evs w) ! p = promises w ! p
       \<and> p \<notin> fst ` set (listeners (fold dispatchEvent evs w))"
  using assms
proof (induction evs arbitrary: w)
  case Nil
  then show ?case by simp
next
  case (Cons ev evs)
  have d: "distinct (listeners w)" using Cons.prems(1) by (rule wf_window_distinct)
  have "p \<notin> fst ` set (listeners (dispatchEvent ev w))"
    using Cons.prems(2) by (auto simp: dispatchEvent_listeners [OF d])
  moreover have "promises (dispatchEvent ev w) ! p = promises w ! p"
    using Cons.prems(2) by (force simp: dispatchEvent_promises)
  ultimately show ?case
    using Cons.IH [of "dispatchEvent ev w"] Cons.prems(1) by (simp add: wf_window_dispatchEvent)
qed

lemma pending_events:
  assumes "wf_window w" and "pending p uid w"
  shows "promises (fold dispatchEvent evs w) ! p =
           map_option (\<lambda>ev. ret_of (data ev)) (find (\<lambda>ev. accepts uid (data ev)) evs)
       \<and> (pending p uid (fold dispatchEvent evs w) \<longleftrightarrow> find (\<lambda>ev. accepts uid (data ev)) evs = None)
       \<and> ((p, uid) \<in> set (listeners (fold dispatchEvent evs w))
            \<longleftrightarrow> find (\<lambda>ev. accepts uid (data ev)) evs = None)"
  using assms
proof (induction evs arbitrary: w)
  case Nil
  then show ?case by (simp add: pending_def)
next
  case (Cons ev evs)
  have wf': "wf_window (dispatchEvent ev w)"
    using Cons.prems(1) by (rule wf_window_dispatchEvent)
  show ?case
  proof (cases "accepts uid (data ev)")
    case True
    with pending_step [OF Cons.prems, of ev]
    have r: "promises (dispatchEvent ev w) ! p = Some (ret_of (data ev))"
      and g: "p \<notin> fst ` set (listeners (dispatchEvent ev w))"
      by simp_all
    have keep: "promises (fold dispatchEvent evs (dispatchEvent ev w)) ! p = Some (ret_of (data ev))"
      using settled_stays [OF wf' g, of evs] r by simp
    have "p \<notin> fst ` set (listeners (fold dispatchEvent evs (dispatchEvent ev w)))"
      using settled_stays [OF wf' g, of evs] by simp
    then have "(p, uid) \<notin> set (listeners (fold dispatchEvent evs (dispatchEvent ev w)))"
      by force
    with True keep show ?thesis
      by (simp add: pending_def)
  next
    case False
    with pending_step [OF Cons.prems, of ev] have "pending p uid (dispatchEvent ev w)"
      by simp
    from Cons.IH [OF wf' this] False show ?thesis
      by simp
  qed
qed

lemma accepts_response_envelope [simp]:
  "accepts uid (response_envelope (JStr uid') r) \<longleftrightarrow> uid' = uid"
  by (auto simp: accepts_def response_envelope_def namespaced_def js_and_def NAMESPACE_def)

lemma ret_of_response_envelope [simp]: "ret_of (response_envelope i r) = r"
  by (simp add: ret_of_def response_envelope_def namespaced_def js_and_def NAMESPACE_def)

lemma data_response_event [simp]: "data (response_event uid r from) = response_envelope (JStr uid) r"
  by (simp add: response_event_def)

section \<open>Properties of the Client\<close>

text \<open>
  C4. Two calls of \<^verbatim>\<open>request\<close> are in flight with distinct ids, and the response to the
  second arrives first. After it the second call's promise holds its own \<^verbatim>\<open>ret\<close> and the
  first call's promise is still pending; after the response to the first, each promise
  holds the \<^verbatim>\<open>ret\<close> of its own response.
\<close>

theorem C4_out_of_order_responses:
  assumes "wf_window w" and "uidA \<noteq> uidB"
    and "request parse_url c methodA argsA uidA w = Inr (msgA, pA, wA)"
    and "request parse_url c methodB argsB uidB wA = Inr (msgB, pB, wB)"
  shows "pA \<noteq> pB
       \<and> promises (dispatchEvent (response_event uidB retB so) wB) ! pB = Some retB
       \<and> promises (dispatchEvent (response_event uidB retB so) wB) ! pA = None
       \<and> promises (dispatchEvent (response_event uidA retA so)
            (dispatchEvent (response_event uidB retB so) wB)) ! pA = Some retA
       \<and> promises (dispatchEvent (response_event uidA retA so)
            (dispatchEvent (response_event uidB retB so) wB)) ! pB = Some retB"
proof -
  let ?evA = "response_event uidA retA so" and ?evB = "response_event uidB retB so"
  from pending_request [OF assms(1,3)]
  have wfA: "wf_window wA" and penA: "pending pA uidA wA" and pA: "pA = length (promises w)"
    by blast+
  from pending_request [OF wfA assms(4)]
  have wfB: "wf_window wB" and penB: "pending pB uidB wB" and pB: "pB = length (promises wA)"
    by blast+
  have "length (promises wA) = Suc (length (promises w))"
    using assms(3) by (auto simp: request_def addEventListener_def Let_def split: if_splits)
  with pA pB have ne: "pA \<noteq> pB" by simp
  have penA': "pending pA uidA wB"
    using penA assms(4)
    by (auto simp: pending_def request_def addEventListener_def Let_def nth_append
        split: if_splits)
  from pending_events [OF wfB penB, of "[?evB, ?evA]"]
  have B2: "promises (dispatchEvent ?evA (dispatchEvent ?evB wB)) ! pB = Some retB"
    by simp
  from pending_events [OF wfB penB, of "[?evB]"]
  have B1: "promises (dispatchEvent ?evB wB) ! pB = Some retB"
    by simp
  from pending_events [OF wfB penA', of "[?evB]"] assms(2)
  have A1: "promises (dispatchEvent ?evB wB) ! pA = None"
    by simp
  from pending_events [OF wfB penA', of "[?evB, ?evA]"] assms(2)
  have A2: "promises (dispatchEvent ?evA (dispatchEvent ?evB wB)) ! pA = Some retA"
    by simp
  from ne B1 A1 A2 B2 show ?thesis by simp
qed

theorem C4_out_of_order_witness:
  "wf_window new_window \<and> ''a'' \<noteq> ''b''
   \<and> request known_origins idp_client ''first'' [] ''a'' new_window =
       Inr ((request_envelope (JStr ''a'') (JStr ''first'') (JArr []), idp_origin), 0,
        \<lparr>listeners = [(0, ''a'')], promises = [None], uncaught = []\<rparr>)
   \<and> request known_origins idp_client ''second'' [] ''b''
         \<lparr>listeners = [(0, ''a'')], promises = [None], uncaught = []\<rparr> =
       Inr ((request_envelope (JStr ''b'') (JStr ''second'') (JArr []), idp_origin), 1,
        \<lparr>listeners = [(0, ''a''), (1, ''b'')], promises = [None, None], uncaught = []\<rparr>)
   \<and> promises (dispatchEvent (response_event ''b'' (JStr ''B'') idp_origin)
         \<lparr>listeners = [(0, ''a''), (1, ''b'')], promises = [None, None], uncaught = []\<rparr>) ! 1
       = Some (JStr ''B'')
   \<and> promises (dispatchEvent (response_event ''b'' (JStr ''B'') idp_origin)
         \<lparr>listeners = [(0, ''a''), (1, ''b'')], promises = [None, None], uncaught = []\<rparr>) ! 0
       = None
   \<and> promises (dispatchEvent (response_event ''a'' (JStr ''A'') idp_origin)
         (dispatchEvent (response_event ''b'' (JStr ''B'') idp_origin)
           \<lparr>listeners = [(0, ''a''), (1, ''b'')], promises = [None, None], uncaught = []\<rparr>)) ! 0
       = Some (JStr ''A'')
   \<and> promises (dispatchEvent (response_event ''a'' (JStr ''A'') idp_origin)
         (dispatchEvent (response_event ''b'' (JStr ''B'') idp_origin)
           \<lparr>listeners = [(0, ''a''), (1, ''b'')], promises = [None, None], uncaught = []\<rparr>)) ! 1
       = Some (JStr ''B'')"
proof -
  have a: "request known_origins idp_client ''first'' [] ''a'' new_window =
       Inr ((request_envelope (JStr ''a'') (JStr ''first'') (JArr []), idp_origin), 0,
        \<lparr>listeners = [(0, ''a'')], promises = [None], uncaught = []\<rparr>)"
    by (simp add: request_def new_window_def addEventListener_def idp_client_def
        invalid_targetOrigin_def parse_target_def known_origins_def idp_origin_def)
  have b: "request known_origins idp_client ''second'' [] ''b''
         \<lparr>listeners = [(0, ''a'')], promises = [None], uncaught = []\<rparr> =
       Inr ((request_envelope (JStr ''b'') (JStr ''second'') (JArr []), idp_origin), 1,
        \<lparr>listeners = [(0, ''a''), (1, ''b'')], promises = [None, None], uncaught = []\<rparr>)"
    by (simp add: request_def addEventListener_def idp_client_def
        invalid_targetOrigin_def parse_target_def known_origins_def idp_origin_def)
  have ne: "''a'' \<noteq> ''b''" by simp
  from C4_out_of_order_responses [OF wf_window_new ne a b, of "JStr ''B''" idp_origin "JStr ''A''"] a b
  show ?thesis by (simp add: wf_window_new)
qed

text \<open>
  What holds of a call in general: from a window \<open>w\<close> as calls and messages produce it, the
  promise of a new call is resolved by the first message that is a response for its id
  and does not shadow \<^verbatim>\<open>hasOwnProperty\<close>, with that message's \<^verbatim>\<open>ret\<close>; later messages
  do not change it, and the listener stays registered exactly until then.
\<close>

lemma request_resolves_on_first_response:
  assumes "wf_window w" and "request parse_url c method args uid w = Inr (msg, p, w1)"
  shows "promises (fold dispatchEvent evs w1) ! p =
           map_option (\<lambda>ev. ret_of (data ev))
             (find (\<lambda>ev. is_response_for uid (data ev)
                \<and> \<not> has_own (get (data ev) NAMESPACE) ''hasOwnProperty'') evs)
       \<and> ((p, uid) \<in> set (listeners (fold dispatchEvent evs w1)) \<longleftrightarrow>
            find (\<lambda>ev. is_response_for uid (data ev)
                \<and> \<not> has_own (get (data ev) NAMESPACE) ''hasOwnProperty'') evs = None)"
proof -
  from pending_request [OF assms]
  have "wf_window w1" and "pending p uid w1" by blast+
  from pending_events [OF this, of evs] show ?thesis
    by (simp add: accepts_iff)
qed

text \<open>
  C7. The promise of a call is to be resolved exactly when a message contains the namespace
  key, the namespaced value's \<^verbatim>\<open>id\<close> is the call's id, and the value has an own property
  \<^verbatim>\<open>ret\<close>. The listener tests the last with \<^verbatim>\<open>resp.hasOwnProperty('ret')\<close>: on a message
  that meets the three conditions and also has an own property named \<^verbatim>\<open>hasOwnProperty\<close>,
  that call throws a \<^verbatim>\<open>TypeError\<close>; the promise stays pending and the listener registered.
\<close>

theorem C7_shadowed_hasOwnProperty_stays_pending:
  "is_response_for ''id1'' (data shadowed_response)
   \<and> request known_origins idp_client ''echo'' [] ''id1'' new_window =
       Inr ((request_envelope (JStr ''id1'') (JStr ''echo'') (JArr []), idp_origin), 0,
        \<lparr>listeners = [(0, ''id1'')], promises = [None], uncaught = []\<rparr>)
   \<and> dispatchEvent shadowed_response
         \<lparr>listeners = [(0, ''id1'')], promises = [None], uncaught = []\<rparr>
     = \<lparr>listeners = [(0, ''id1'')], promises = [None], uncaught = [TypeError_not_a_function]\<rparr>"
  by (simp add: is_response_for_def shadowed_response_def request_def new_window_def
      addEventListener_def dispatchEvent_def responseListener_def namespaced_def js_and_def
      NAMESPACE_def Let_def idp_client_def invalid_targetOrigin_def parse_target_def
      known_origins_def idp_origin_def)

section \<open>Properties of a whole call\<close>

lemma reaches_valid: "reaches parse_url sender t target \<Longrightarrow> \<not> invalid_targetOrigin parse_url t"
  by (auto simp: reaches_def invalid_targetOrigin_def parse_target_def split: if_splits)

lemma handleMessage_request:
  assumes "origin ev = clientOrigin s" and "data ev = request_envelope i m (JArr as)" and "truthy m"
  shows "handleMessage parse_url s ev =
     (case handler s m as of
        Throws e \<Rightarrow> \<lparr>warned = [], invoked = [(m, as)], posted = [], completion = Rejected e\<rparr>
      | Returns r \<Rightarrow>
          (case await r of
             Resolved ret \<Rightarrow>
               (if invalid_targetOrigin parse_url (clientOrigin s) then
                  \<lparr>warned = [], invoked = [(m, as)], posted = [],
                   completion = Rejected SyntaxError_invalid_target_origin\<rparr>
                else
                  \<lparr>warned = [], invoked = [(m, as)],
                   posted = [(response_envelope i ret, clientOrigin s)],
                   completion = Resolved JUndefined\<rparr>)
           | Rejected e \<Rightarrow>
               \<lparr>warned = [], invoked = [(m, as)], posted = [], completion = Rejected e\<rparr>
           | Unsettled \<Rightarrow>
               \<lparr>warned = [], invoked = [(m, as)], posted = [], completion = Unsettled\<rparr>))"
  using assms
  by (simp add: handleMessage_def request_envelope_def namespaced_def js_and_def NAMESPACE_def)


text \<open>
  When the Client's target origin reaches the Server's window, \<open>request\<close> does not throw,
  its message is the one event the Server receives, and what the Server posts is
  delivered to the client's window as far as its target origin reaches it.
\<close>

lemma round_trip_reaches:
  assumes "reaches parse_url cw (serverOrigin c) sw"
  shows "\<exists>w1. request parse_url c method args uid w =
           Inr ((request_envelope (JStr uid) (JStr method) (JArr args), serverOrigin c),
                length (promises w), w1)
       \<and> (wf_window w \<longrightarrow> wf_window w1 \<and> pending (length (promises w)) uid w1)
       \<and> round_trip parse_url c s cw sw method args uid w =
           Inr ([handleMessage parse_url s
                   \<lparr>data = request_envelope (JStr uid) (JStr method) (JArr args),
                    origin = serialize cw\<rparr>],
                length (promises w),
                fold dispatchEvent
                  (concat (map (deliver parse_url sw cw)
                     (posted (handleMessage parse_url s
                        \<lparr>data = request_envelope (JStr uid) (JStr method) (JArr args),
                         origin = serialize cw\<rparr>)))) w1)"
proof -
  let ?msg = "(request_envelope (JStr uid) (JStr method) (JArr args), serverOrigin c)"
  let ?w1 = "addEventListener (length (promises w), uid) (w\<lparr>promises := promises w @ [None]\<rparr>)"
  have valid: "\<not> invalid_targetOrigin parse_url (serverOrigin c)"
    using assms by (rule reaches_valid)
  then have req: "request parse_url c method args uid w = Inr (?msg, length (promises w), ?w1)"
    by (simp add: request_def Let_def)
  have pen: "wf_window w \<longrightarrow> wf_window ?w1 \<and> pending (length (promises w)) uid ?w1"
    using pending_request [OF _ req] by blast
  have "deliver parse_url cw sw ?msg =
      [\<lparr>data = request_envelope (JStr uid) (JStr method) (JArr args), origin = serialize cw\<rparr>]"
    using assms by (simp add: deliver_def)
  with req have "round_trip parse_url c s cw sw method args uid w =
           Inr ([handleMessage parse_url s
                   \<lparr>data = request_envelope (JStr uid) (JStr method) (JArr args),
                    origin = serialize cw\<rparr>],
                length (promises w),
                fold dispatchEvent
                  (concat (map (deliver parse_url sw cw)
                     (posted (handleMessage parse_url s
                        \<lparr>data = request_envelope (JStr uid) (JStr method) (JArr args),
                         origin = serialize cw\<rparr>)))) ?w1)"
    by (simp add: round_trip_def)
  with req pen show ?thesis by blast
qed



lemma round_trip_failed:
  assumes "wf_window w" and "method \<noteq> []"
    and "reaches parse_url cw (serverOrigin c) sw" and "clientOrigin s = serialize cw"
    and "handler s (JStr method) args = Throws e
         \<or> handler s (JStr method) args = Returns (Promise (Rejected e))"
  shows "\<exists>w'. round_trip parse_url c s cw sw method args uid w =
           Inr ([\<lparr>warned = [], invoked = [(JStr method, args)], posted = [],
                  completion = Rejected e\<rparr>], length (promises w), w')
       \<and> wf_window w' \<and> pending (length (promises w)) uid w'"
proof -
  let ?ev = "\<lparr>data = request_envelope (JStr uid) (JStr method) (JArr args),
              origin = serialize cw\<rparr>"
  have out: "handleMessage parse_url s ?ev =
      \<lparr>warned = [], invoked = [(JStr method, args)], posted = [], completion = Rejected e\<rparr>"
    using handleMessage_request [of ?ev s "JStr uid" "JStr method" args parse_url] assms(2,4,5)
    by auto
  from round_trip_reaches [OF assms(3), of "method" "args" uid w s] assms(1)
  obtain w1 where "wf_window w1" and "pending (length (promises w)) uid w1"
    and "round_trip parse_url c s cw sw method args uid w =
      Inr ([handleMessage parse_url s ?ev], length (promises w), w1)"
    by (auto simp: out)
  with out show ?thesis by simp
qed

lemma pending_without_response:
  assumes "wf_window w" and "pending p uid w" and "\<forall>ev \<in> set evs. \<not> accepts uid (data ev)"
  shows "pending p uid (fold dispatchEvent evs w)"
proof -
  have "find (\<lambda>ev. accepts uid (data ev)) evs = None"
    using assms(3) by (simp add: find_None_iff)
  with pending_events [OF assms(1,2), of evs] show ?thesis by simp
qed







text \<open>
  C8. When the handler throws, or returns a promise that rejects, while the Server handles a
  request, the Server posts nothing and its run fails with the handler's reason, uncaught.
  The call's promise is then pending, and it stays pending under every sequence of later
  messages none of which is a response for the call's id: nothing else settles it.
\<close>

theorem C8_handler_failure_no_response:
  assumes "wf_window w" and "method \<noteq> []"
    and "reaches parse_url cw (serverOrigin c) sw" and "clientOrigin s = serialize cw"
    and "handler s (JStr method) args = Throws e
         \<or> handler s (JStr method) args = Returns (Promise (Rejected e))"
  shows "\<exists>p w'. round_trip parse_url c s cw sw method args uid w =
           Inr ([\<lparr>warned = [], invoked = [(JStr method, args)], posted = [],
                  completion = Rejected e\<rparr>], p, w')
       \<and> (\<forall>evs. (\<forall>ev \<in> set evs. \<not> accepts uid (data ev)) \<longrightarrow>
            pending p uid (fold dispatchEvent evs w'))"
proof -
  from round_trip_failed [OF assms, of uid]
  obtain w' where rt: "round_trip parse_url c s cw sw method args uid w =
           Inr ([\<lparr>warned = [], invoked = [(JStr method, args)], posted = [],
                  completion = Rejected e\<rparr>], length (promises w), w')"
    and wf: "wf_window w'" and pen: "pending (length (promises w)) uid w'"
    by blast
  have "pending (length (promises w)) uid (fold dispatchEvent evs w')"
    if "\<forall>ev \<in> set evs. \<not> accepts uid (data ev)" for evs
    using pending_without_response [OF wf pen that] .
  with rt show ?thesis by blast
qed

theorem C8_handler_failure_witness:
  "wf_window new_window \<and> ''echo'' \<noteq> []
   \<and> reaches known_origins app_window (serverOrigin idp_client) idp_window
   \<and> clientOrigin boom_server = serialize app_window
   \<and> handler boom_server (JStr ''echo'') [JNum 1] = Throws (Raised (JStr ''boom''))
   \<and> round_trip known_origins idp_client boom_server app_window idp_window ''echo'' [JNum 1]
         ''id1'' new_window =
       Inr ([\<lparr>warned = [], invoked = [(JStr ''echo'', [JNum 1])], posted = [],
              completion = Rejected (Raised (JStr ''boom''))\<rparr>], 0,
            \<lparr>listeners = [(0, ''id1'')], promises = [None], uncaught = []\<rparr>)
   \<and> pending 0 ''id1''
       (fold dispatchEvent [response_event ''id2'' (JNum 7) idp_origin]
         \<lparr>listeners = [(0, ''id1'')], promises = [None], uncaught = []\<rparr>)"
proof -
  have wf: "wf_window new_window" by (rule wf_window_new)
  have m: "''echo'' \<noteq> []" by simp
  have there: "reaches known_origins app_window (serverOrigin idp_client) idp_window"
    by (simp add: reaches_def parse_target_def known_origins_def idp_client_def idp_window_def idp_origin_def)
  have same: "clientOrigin boom_server = serialize app_window"
    by (simp add: boom_server_def app_window_def)
  have h: "handler boom_server (JStr ''echo'') [JNum 1] = Throws (Raised (JStr ''boom''))"
    by (simp add: boom_server_def throws_boom_def)
  then have h': "handler boom_server (JStr ''echo'') [JNum 1] = Throws (Raised (JStr ''boom''))
      \<or> handler boom_server (JStr ''echo'') [JNum 1]
          = Returns (Promise (Rejected (Raised (JStr ''boom''))))"
    by simp
  have other: "\<forall>ev \<in> set [response_event ''id2'' (JNum 7) idp_origin]. \<not> accepts ''id1'' (data ev)"
    by simp
  have run: "round_trip known_origins idp_client boom_server app_window idp_window ''echo'' [JNum 1]
         ''id1'' new_window =
       Inr ([\<lparr>warned = [], invoked = [(JStr ''echo'', [JNum 1])], posted = [],
              completion = Rejected (Raised (JStr ''boom''))\<rparr>], 0,
            \<lparr>listeners = [(0, ''id1'')], promises = [None], uncaught = []\<rparr>)"
    by (simp add: round_trip_def request_def idp_client_def boom_server_def throws_boom_def
        new_window_def addEventListener_def deliver_def reaches_def invalid_targetOrigin_def parse_target_def
        known_origins_def handleMessage_def request_envelope_def
        namespaced_def js_and_def NAMESPACE_def app_origin_def idp_origin_def app_window_def
        idp_window_def Let_def)
  from C8_handler_failure_no_response [OF wf m there same h', of "''id1''"] run
  have stays: "\<forall>evs. (\<forall>ev \<in> set evs. \<not> accepts ''id1'' (data ev)) \<longrightarrow>
      pending 0 ''id1''
        (fold dispatchEvent evs \<lparr>listeners = [(0, ''id1'')], promises = [None], uncaught = []\<rparr>)"
    by auto
  from stays [THEN spec, THEN mp, OF other]
  have "pending 0 ''id1''
       (fold dispatchEvent [response_event ''id2'' (JNum 7) idp_origin]
         \<lparr>listeners = [(0, ''id1'')], promises = [None], uncaught = []\<rparr>)" .
  with wf m there same h run show ?thesis by (intro conjI)
qed

end
